theory Spec2Isabelle
  imports Complex_Main "HOL-Library.Product_Lexorder" "HOL-Library.Multiset"
begin

section \<open>SQL values\<close>

text \<open>
  The business logic of the application lives in the PL/pgSQL functions and triggers of
  \<^verbatim>\<open>supabase/migrations\<close>. Tables are lists of rows (records), in the order a
  sequential scan finds them. A nullable column is an \<open>option\<close> (\<open>None\<close> is NULL).
  A \<^verbatim>\<open>uuid\<close> is a natural number. A \<^verbatim>\<open>numeric\<close> is a rational number:
  addition and multiplication of \<^verbatim>\<open>numeric\<close> are exact, and the rounding of a
  quotient to PostgreSQL's display scale (at least 16 significant digits) is left out.
  An error raised by a statement aborts the function: functions that can raise return
  \<open>sql_error + 'a\<close>.
\<close>

type_synonym uuid = nat
type_synonym numeric = rat

datatype sql_error =
    Division_by_zero
  | Integer_out_of_range
  | Not_null_violation
  | Unique_violation
  | Foreign_key_violation

text \<open>A comparison \<^verbatim>\<open>a = b\<close> in a WHERE clause: a row passes only when the
  comparison is true, and it is NULL (not true) when either side is NULL.\<close>

definition sql_eq :: "'a option \<Rightarrow> 'a option \<Rightarrow> bool" where
  "sql_eq a b = (case a of None \<Rightarrow> False | Some x \<Rightarrow> (case b of None \<Rightarrow> False | Some y \<Rightarrow> x = y))"

text \<open>\<^verbatim>\<open>SUM(e)\<close> over the selected rows: NULL when there is no row.\<close>

definition sql_sum :: "numeric list \<Rightarrow> numeric option" where
  "sql_sum xs = (if xs = [] then None else Some (sum_list xs))"

text \<open>\<^verbatim>\<open>a / b\<close> on \<^verbatim>\<open>numeric\<close>: NULL when an operand is NULL, the error
  \<^verbatim>\<open>division by zero\<close> when the divisor is zero.\<close>

definition sql_div :: "numeric option \<Rightarrow> numeric option \<Rightarrow> sql_error + numeric option" where
  "sql_div a b =
     (case a of None \<Rightarrow> Inr None
      | Some x \<Rightarrow> (case b of None \<Rightarrow> Inr None
          | Some y \<Rightarrow> if y = 0 then Inl Division_by_zero else Inr (Some (x / y))))"

definition coalesce :: "'a option \<Rightarrow> 'a \<Rightarrow> 'a" where
  "coalesce a d = (case a of None \<Rightarrow> d | Some x \<Rightarrow> x)"


section \<open>Weighted average of a subject\<close>

text \<open>Table \<^verbatim>\<open>assessments\<close> (20250212145640\_little\_poetry.sql). The columns
  \<^verbatim>\<open>student_id\<close> and \<^verbatim>\<open>subject_id\<close> are nullable references.\<close>

record assessment =
  a_student_id :: "uuid option"
  a_subject_id :: "uuid option"
  a_term :: int
  a_year :: int
  a_assessment_type :: string
  a_weight :: numeric
  a_score :: numeric

text \<open>The CHECK constraints of the table on one row.\<close>

definition assessment_checks :: "assessment \<Rightarrow> bool" where
  "assessment_checks a =
     (1 \<le> a_term a \<and> a_term a \<le> 4 \<and> 0 \<le> a_weight a \<and> a_weight a \<le> 100 \<and> 0 \<le> a_score a \<and> a_score a \<le> 100)"

text \<open>The WHERE clause of \<^verbatim>\<open>calculate_subject_average\<close>.\<close>

definition matching_assessments ::
  "assessment list \<Rightarrow> uuid \<Rightarrow> uuid \<Rightarrow> int \<Rightarrow> int \<Rightarrow> assessment list" where
  "matching_assessments assessments p_student_id p_subject_id p_term p_year =
     filter (\<lambda>a. sql_eq (a_student_id a) (Some p_student_id)
                \<and> sql_eq (a_subject_id a) (Some p_subject_id)
                \<and> a_term a = p_term
                \<and> a_year a = p_year) assessments"

text \<open>
  \<^verbatim>\<open>SELECT SUM(score * weight) / SUM(weight) INTO v_average FROM assessments WHERE ...;
  RETURN COALESCE(v_average, 0);\<close>
\<close>

definition calculate_subject_average ::
  "assessment list \<Rightarrow> uuid \<Rightarrow> uuid \<Rightarrow> int \<Rightarrow> int \<Rightarrow> sql_error + numeric" where
  "calculate_subject_average assessments p_student_id p_subject_id p_term p_year =
     (let rows = matching_assessments assessments p_student_id p_subject_id p_term p_year in
      case sql_div (sql_sum (map (\<lambda>a. a_score a * a_weight a) rows)) (sql_sum (map a_weight rows)) of
        Inl e \<Rightarrow> Inl e
      | Inr v_average \<Rightarrow> Inr (coalesce v_average 0))"



definition assessment_80_0 :: assessment where
  "assessment_80_0 = \<lparr>a_student_id = Some 1, a_subject_id = Some 1, a_term = 1, a_year = 2025,
     a_assessment_type = ''project'', a_weight = 0, a_score = 80\<rparr>"


section \<open>Dates and timestamps\<close>

text \<open>
  A \<^verbatim>\<open>date\<close> is (year, month, day) and a \<^verbatim>\<open>timestamptz\<close> is a date with the
  seconds since midnight, both read in the session's time zone; they are ordered
  lexicographically. Adding an \<^verbatim>\<open>interval\<close> follows PostgreSQL: the months are added
  first, the day of the month is clamped to the length of the month reached, then the
  days are added.
\<close>

type_synonym date = "nat \<times> nat \<times> nat"
type_synonym timestamp = "date \<times> nat"

definition is_leap :: "nat \<Rightarrow> bool" where
  "is_leap y = (if y mod 400 = 0 then True else if y mod 100 = 0 then False else y mod 4 = 0)"

definition days_in_month :: "nat \<Rightarrow> nat \<Rightarrow> nat" where
  "days_in_month y m =
     (if m = 2 then (if is_leap y then 29 else 28)
      else if m = 4 \<or> m = 6 \<or> m = 9 \<or> m = 11 then 30 else 31)"

definition clamp_day :: "nat \<Rightarrow> nat \<Rightarrow> nat \<Rightarrow> date" where
  "clamp_day y m d = (y, m, min d (days_in_month y m))"

fun add_months :: "nat \<Rightarrow> date \<Rightarrow> date" where
  "add_months k (y, m, d) =
     clamp_day (if 12 < m + k then y + (m + k - 1) div 12 else y)
               (if 12 < m + k then (m + k - 1) mod 12 + 1 else m + k) d"

fun next_day :: "date \<Rightarrow> date" where
  "next_day (y, m, d) =
     (if d < days_in_month y m then (y, m, d + 1)
      else if m < 12 then (y, m + 1, 1)
      else (y + 1, 1, 1))"

primrec add_days :: "nat \<Rightarrow> date \<Rightarrow> date" where
  "add_days 0 dt = dt"
| "add_days (Suc n) dt = add_days n (next_day dt)"

text \<open>An \<^verbatim>\<open>interval\<close> of whole months and days (\<^verbatim>\<open>'1 year'\<close> is 12 months,
  \<^verbatim>\<open>'1 week'\<close> is 7 days).\<close>

datatype interval = Interval (months: nat) (days: nat)

definition date_pl_interval :: "date \<Rightarrow> interval \<Rightarrow> date" where
  "date_pl_interval dt iv = add_days (days iv) (add_months (months iv) dt)"

definition timestamp_pl_interval :: "timestamp \<Rightarrow> interval \<Rightarrow> timestamp" where
  "timestamp_pl_interval ts iv = (date_pl_interval (fst ts) iv, snd ts)"


section \<open>Tables\<close>

text \<open>
  The tables of 20250212082105\_bold\_lab.sql (invoices, invoice items), of the credit
  notes migration, of the recurring invoices migration and of
  20250212064337\_heavy\_union.sql (clients; it makes \<^verbatim>\<open>invoices.client_id\<close> a
  \<^verbatim>\<open>uuid NOT NULL\<close>). A column with a CHECK over a fixed list of texts is a
  datatype. The \<^verbatim>\<open>created_at\<close> columns are left out.
\<close>

datatype invoice_status = Draft | Sent | Paid | Overdue

record invoice =
  i_id :: uuid
  i_number :: string
  i_client_id :: uuid
  i_date :: date
  i_due_date :: date
  i_subtotal :: numeric
  i_tax_rate :: numeric
  i_tax_amount :: numeric
  i_total :: numeric
  i_status :: invoice_status
  i_currency_code :: string
  i_user_id :: "uuid option"
  i_updated_at :: "timestamp option"

record invoice_item =
  ii_id :: uuid
  ii_invoice_id :: "uuid option"
  ii_description :: string
  ii_quantity :: numeric
  ii_rate :: numeric
  ii_amount :: numeric

datatype credit_note_status = Cn_draft | Cn_issued

record credit_note =
  cn_id :: uuid
  cn_number :: string
  cn_invoice_id :: "uuid option"
  cn_client_id :: uuid
  cn_date :: date
  cn_reason :: string
  cn_subtotal :: numeric
  cn_tax_rate :: numeric
  cn_tax_amount :: numeric
  cn_total :: numeric
  cn_status :: credit_note_status
  cn_currency_code :: string
  cn_user_id :: "uuid option"
  cn_updated_at :: "timestamp option"

record credit_note_item =
  cni_id :: uuid
  cni_credit_note_id :: "uuid option"
  cni_description :: string
  cni_quantity :: numeric
  cni_rate :: numeric
  cni_amount :: numeric

datatype frequency = Weekly | Monthly | Quarterly | Yearly

datatype recurring_status = Active | Paused | Completed

record recurring_invoice =
  r_id :: uuid
  r_client_id :: "uuid option"
  r_user_id :: "uuid option"
  r_frequency :: frequency
  r_start_date :: date
  r_end_date :: "date option"
  r_description :: string
  r_amount :: numeric
  r_tax_rate :: numeric
  r_currency_code :: string
  r_status :: recurring_status
  r_last_generated :: "timestamp option"
  r_updated_at :: "timestamp option"

record client =
  c_id :: uuid
  c_name :: string
  c_user_id :: "uuid option"


record db =
  invoices :: "invoice list"
  invoice_items :: "invoice_item list"
  credit_notes :: "credit_note list"
  credit_note_items :: "credit_note_item list"
  recurring_invoices :: "recurring_invoice list"


section \<open>Sequence numbers\<close>

text \<open>Decimal text of an \<^verbatim>\<open>integer\<close> (\<^verbatim>\<open>next_number::text\<close>) and back.\<close>

definition is_digit :: "char \<Rightarrow> bool" where
  "is_digit c = (c \<in> set ''0123456789'')"

definition digit_char :: "nat \<Rightarrow> char" where
  "digit_char n = ''0123456789'' ! n"

function text_of_nat :: "nat \<Rightarrow> string" where
  "text_of_nat n = (if n < 10 then [digit_char n] else text_of_nat (n div 10) @ [digit_char (n mod 10)])"
  by pat_completeness auto
termination
  by (relation "measure (\<lambda>n. n)") auto

declare text_of_nat.simps [simp del]

definition digit_val :: "char \<Rightarrow> nat" where
  "digit_val c = of_char c - 48"

definition nat_of_digits :: "string \<Rightarrow> nat" where
  "nat_of_digits ds = foldl (\<lambda>n c. 10 * n + digit_val c) 0 ds"

text \<open>\<^verbatim>\<open>LPAD(string, length, fill)\<close> with a one-character fill: PostgreSQL pads on the
  left up to \<^verbatim>\<open>length\<close>, and truncates a longer string to its first
  \<^verbatim>\<open>length\<close> characters.\<close>

definition lpad :: "string \<Rightarrow> nat \<Rightarrow> char \<Rightarrow> string" where
  "lpad str len fill =
     (if len \<le> length str then take len str else replicate (len - length str) fill @ str)"

text \<open>\<^verbatim>\<open>to_char(current_date, 'YYYY')\<close>: the year, with at least four digits.\<close>

definition to_char_YYYY :: "date \<Rightarrow> string" where
  "to_char_YYYY dt =
     (let y = text_of_nat (fst dt) in replicate (4 - length y) (CHR ''0'') @ y)"

text \<open>\<^verbatim>\<open>number LIKE p || '%'\<close> for a pattern \<open>p\<close> without wildcards.\<close>

definition like_prefix :: "string \<Rightarrow> string \<Rightarrow> bool" where
  "like_prefix p str = (take (length p) str = p)"

text \<open>
  \<^verbatim>\<open>SUBSTRING(str FROM 'P\d{4}-(\d+)')\<close> for a literal prefix \<open>P\<close>: the digits
  captured by the leftmost match of the regular expression (the longest run, \<^verbatim>\<open>\d+\<close>
  is greedy), NULL when there is no match. \<open>match_here\<close> matches at the start of the
  string, \<open>regex_substring\<close> tries every start from the left.
\<close>

definition match_here :: "string \<Rightarrow> string \<Rightarrow> string option" where
  "match_here p str =
     (let r = drop (length p) str;
          ds = takeWhile is_digit (drop 5 r)
      in if take (length p) str = p \<and> length (take 4 r) = 4 \<and> list_all is_digit (take 4 r)
            \<and> take 1 (drop 4 r) = ''-'' \<and> 0 < length ds
         then Some ds else None)"

fun regex_substring :: "string \<Rightarrow> string \<Rightarrow> string option" where
  "regex_substring p [] = match_here p []"
| "regex_substring p (c # cs) =
     (case match_here p (c # cs) of Some ds \<Rightarrow> Some ds | None \<Rightarrow> regex_substring p cs)"

text \<open>\<^verbatim>\<open>CAST(t AS integer)\<close> of a text of digits: a 32-bit integer, out of range
  above 2147483647.\<close>

definition cast_integer :: "string option \<Rightarrow> sql_error + nat option" where
  "cast_integer t =
     (case t of None \<Rightarrow> Inr None
      | Some ds \<Rightarrow> if nat_of_digits ds \<le> 2147483647 then Inr (Some (nat_of_digits ds))
                   else Inl Integer_out_of_range)"

text \<open>\<^verbatim>\<open>MAX(CAST(... AS integer))\<close> over the rows: NULLs are skipped, and the result
  is NULL when no row has a value.\<close>

fun max_cast :: "string option list \<Rightarrow> sql_error + nat option" where
  "max_cast [] = Inr None"
| "max_cast (t # ts) =
     (case cast_integer t of Inl e \<Rightarrow> Inl e
      | Inr v \<Rightarrow> (case max_cast ts of Inl e \<Rightarrow> Inl e
          | Inr m \<Rightarrow> Inr (case v of None \<Rightarrow> m
                          | Some a \<Rightarrow> (case m of None \<Rightarrow> Some a | Some b \<Rightarrow> Some (max a b)))))"

text \<open>\<^verbatim>\<open>COALESCE(m, 0) + 1\<close> in 32-bit \<^verbatim>\<open>integer\<close> arithmetic, then
  \<^verbatim>\<open>prefix || LPAD(next_number::text, len, '0')\<close>.\<close>

definition format_next :: "string \<Rightarrow> nat \<Rightarrow> nat option \<Rightarrow> sql_error + string" where
  "format_next prefix len m =
     (let next_number = coalesce m 0 + 1
      in if next_number \<le> 2147483647
         then Inr (prefix @ lpad (text_of_nat next_number) len (CHR ''0''))
         else Inl Integer_out_of_range)"

definition generate_invoice_number :: "date \<Rightarrow> invoice list \<Rightarrow> sql_error + string" where
  "generate_invoice_number current_date tbl =
     (let year = to_char_YYYY current_date in
      case max_cast (map (regex_substring ''INV-'')
             (filter (like_prefix (''INV-'' @ year @ ''-'')) (map i_number tbl))) of
        Inl e \<Rightarrow> Inl e
      | Inr m \<Rightarrow> format_next (''INV-'' @ year @ ''-'') 3 m)"




section \<open>Totals of invoices and credit notes\<close>

text \<open>
  The trigger function \<^verbatim>\<open>update_invoice_totals\<close>. \<open>NEW\<close> is the row the trigger
  fires for: PL/pgSQL sets \<^verbatim>\<open>NEW\<close> to NULL in a trigger fired by DELETE, so
  \<^verbatim>\<open>NEW.invoice_id\<close> is NULL there. The second UPDATE reads the subtotal the first
  one stored.
\<close>

definition update_invoice_totals :: "invoice_item option \<Rightarrow> timestamp \<Rightarrow> db \<Rightarrow> db" where
  "update_invoice_totals NEW now s =
     (let new_invoice_id = Option.bind NEW ii_invoice_id;
          s1 = s\<lparr>invoices := map (\<lambda>i.
                 if sql_eq (Some (i_id i)) new_invoice_id
                 then i\<lparr>i_subtotal := coalesce (sql_sum (map ii_amount
                          (filter (\<lambda>it. sql_eq (ii_invoice_id it) new_invoice_id) (invoice_items s)))) 0,
                        i_updated_at := Some now\<rparr>
                 else i) (invoices s)\<rparr>
      in s1\<lparr>invoices := map (\<lambda>i.
                 if sql_eq (Some (i_id i)) new_invoice_id
                 then i\<lparr>i_tax_amount := i_subtotal i * (i_tax_rate i / 100),
                        i_total := i_subtotal i + i_subtotal i * (i_tax_rate i / 100)\<rparr>
                 else i) (invoices s1)\<rparr>)"

text \<open>
  The statements on \<^verbatim>\<open>invoice_items\<close>, each followed by the trigger
  \<^verbatim>\<open>AFTER INSERT OR UPDATE OR DELETE ... FOR EACH ROW\<close>, which fires once per row
  after the statement has changed the table: \<^verbatim>\<open>INSERT\<close> of one row (the primary
  key and the reference to \<^verbatim>\<open>invoices\<close> are checked), \<^verbatim>\<open>UPDATE ... WHERE id = k\<close>
  setting the description, quantity, rate and amount, and \<^verbatim>\<open>DELETE ... WHERE id = k\<close>.
\<close>

definition insert_invoice_item :: "timestamp \<Rightarrow> invoice_item \<Rightarrow> db \<Rightarrow> sql_error + db" where
  "insert_invoice_item now it s =
     (if ii_id it \<in> set (map ii_id (invoice_items s)) then Inl Unique_violation
      else if (case ii_invoice_id it of None \<Rightarrow> False | Some k \<Rightarrow> k \<notin> set (map i_id (invoices s)))
      then Inl Foreign_key_violation
      else Inr (update_invoice_totals (Some it) now (s\<lparr>invoice_items := invoice_items s @ [it]\<rparr>)))"

definition update_invoice_item ::
  "timestamp \<Rightarrow> uuid \<Rightarrow> string \<Rightarrow> numeric \<Rightarrow> numeric \<Rightarrow> numeric \<Rightarrow> db \<Rightarrow> db" where
  "update_invoice_item now k description quantity rate amount s =
     (let set_row = (\<lambda>it. it\<lparr>ii_description := description, ii_quantity := quantity,
                              ii_rate := rate, ii_amount := amount\<rparr>);
          new_rows = map set_row (filter (\<lambda>it. ii_id it = k) (invoice_items s));
          s' = s\<lparr>invoice_items := map (\<lambda>it. if ii_id it = k then set_row it else it) (invoice_items s)\<rparr>
      in fold (\<lambda>row. update_invoice_totals (Some row) now) new_rows s')"

definition delete_invoice_item :: "timestamp \<Rightarrow> uuid \<Rightarrow> db \<Rightarrow> db" where
  "delete_invoice_item now k s =
     (let old_rows = filter (\<lambda>it. ii_id it = k) (invoice_items s);
          s' = s\<lparr>invoice_items := filter (\<lambda>it. ii_id it \<noteq> k) (invoice_items s)\<rparr>
      in fold (\<lambda>row. update_invoice_totals None now) old_rows s')"

text \<open>The trigger function \<^verbatim>\<open>update_credit_note_totals\<close> and the statements on
  \<^verbatim>\<open>credit_note_items\<close>, written the same way.\<close>

definition update_credit_note_totals :: "credit_note_item option \<Rightarrow> timestamp \<Rightarrow> db \<Rightarrow> db" where
  "update_credit_note_totals NEW now s =
     (let new_credit_note_id = Option.bind NEW cni_credit_note_id;
          s1 = s\<lparr>credit_notes := map (\<lambda>n.
                 if sql_eq (Some (cn_id n)) new_credit_note_id
                 then n\<lparr>cn_subtotal := coalesce (sql_sum (map cni_amount
                          (filter (\<lambda>it. sql_eq (cni_credit_note_id it) new_credit_note_id)
                             (credit_note_items s)))) 0,
                        cn_updated_at := Some now\<rparr>
                 else n) (credit_notes s)\<rparr>
      in s1\<lparr>credit_notes := map (\<lambda>n.
                 if sql_eq (Some (cn_id n)) new_credit_note_id
                 then n\<lparr>cn_tax_amount := cn_subtotal n * (cn_tax_rate n / 100),
                        cn_total := cn_subtotal n + cn_subtotal n * (cn_tax_rate n / 100)\<rparr>
                 else n) (credit_notes s1)\<rparr>)"

definition insert_credit_note_item ::
  "timestamp \<Rightarrow> credit_note_item \<Rightarrow> db \<Rightarrow> sql_error + db" where
  "insert_credit_note_item now it s =
     (if cni_id it \<in> set (map cni_id (credit_note_items s)) then Inl Unique_violation
      else if (case cni_credit_note_id it of None \<Rightarrow> False
               | Some k \<Rightarrow> k \<notin> set (map cn_id (credit_notes s)))
      then Inl Foreign_key_violation
      else Inr (update_credit_note_totals (Some it) now
                  (s\<lparr>credit_note_items := credit_note_items s @ [it]\<rparr>)))"

definition delete_credit_note_item :: "timestamp \<Rightarrow> uuid \<Rightarrow> db \<Rightarrow> db" where
  "delete_credit_note_item now k s =
     (let old_rows = filter (\<lambda>it. cni_id it = k) (credit_note_items s);
          s' = s\<lparr>credit_note_items := filter (\<lambda>it. cni_id it \<noteq> k) (credit_note_items s)\<rparr>
      in fold (\<lambda>row. update_credit_note_totals None now) old_rows s')"

text \<open>The invariant of the data model on one invoice: the stored totals are the ones
  derived from the line items of the invoice.\<close>

definition invoice_line_amounts :: "db \<Rightarrow> uuid \<Rightarrow> numeric list" where
  "invoice_line_amounts s k =
     map ii_amount (filter (\<lambda>it. ii_invoice_id it = Some k) (invoice_items s))"

definition invoice_totals_ok :: "db \<Rightarrow> invoice \<Rightarrow> bool" where
  "invoice_totals_ok s i =
     (i_subtotal i = sum_list (invoice_line_amounts s (i_id i))
      \<and> i_tax_amount i = i_subtotal i * i_tax_rate i / 100
      \<and> i_total i = i_subtotal i + i_tax_amount i)"





section \<open>Client statement\<close>

text \<open>
  \<^verbatim>\<open>get_client_statement\<close> (20250212082105\_bold\_lab.sql). \<open>uid\<close> is
  \<^verbatim>\<open>auth.uid()\<close>. The common table expression \<^verbatim>\<open>transactions\<close> has one debit
  row per invoice and one credit row per paid invoice, dated as the invoice.
\<close>

record transaction =
  t_date :: date
  t_description :: string
  t_reference :: string
  t_type :: string
  t_debit :: numeric
  t_credit :: numeric

record statement_row = transaction +
  running_balance :: numeric

definition statement_where :: "uuid option \<Rightarrow> uuid \<Rightarrow> date \<Rightarrow> date \<Rightarrow> invoice \<Rightarrow> bool" where
  "statement_where uid p_client_id p_start_date p_end_date i =
     (i_client_id i = p_client_id
      \<and> p_start_date \<le> i_date i \<and> i_date i \<le> p_end_date
      \<and> sql_eq (i_user_id i) uid)"

definition invoice_transaction :: "invoice \<Rightarrow> transaction" where
  "invoice_transaction i =
     \<lparr>t_date = i_date i, t_description = ''Invoice #'' @ i_number i, t_reference = i_number i,
      t_type = ''invoice'', t_debit = i_total i, t_credit = 0\<rparr>"

definition payment_transaction :: "invoice \<Rightarrow> transaction" where
  "payment_transaction i =
     \<lparr>t_date = i_date i, t_description = ''Payment for Invoice #'' @ i_number i,
      t_reference = i_number i, t_type = ''payment'', t_debit = 0, t_credit = i_total i\<rparr>"

definition transactions :: "uuid option \<Rightarrow> invoice list \<Rightarrow> uuid \<Rightarrow> date \<Rightarrow> date \<Rightarrow> transaction list" where
  "transactions uid tbl p_client_id p_start_date p_end_date =
     map invoice_transaction
       (filter (statement_where uid p_client_id p_start_date p_end_date) tbl)
     @ map payment_transaction
       (filter (\<lambda>i. statement_where uid p_client_id p_start_date p_end_date i \<and> i_status i = Paid) tbl)"

text \<open>The sort key \<^verbatim>\<open>t.date, CASE WHEN t.type = 'invoice' THEN 0 ELSE 1 END\<close>.\<close>

definition order_key :: "transaction \<Rightarrow> date \<times> nat" where
  "order_key t = (t_date t, if t_type t = ''invoice'' then 0 else 1)"

text \<open>
  \<^verbatim>\<open>SUM(t.debit - t.credit) OVER (ORDER BY ...)\<close>: the window has no frame clause, so
  its frame is \<^verbatim>\<open>RANGE BETWEEN UNBOUNDED PRECEDING AND CURRENT ROW\<close>: every row up to
  the current row and the peers of the current row (the rows with the same sort key).
\<close>

definition window_sum :: "transaction list \<Rightarrow> transaction \<Rightarrow> numeric" where
  "window_sum ts t =
     sum_list (map (\<lambda>u. t_debit u - t_credit u) (filter (\<lambda>u. order_key u \<le> order_key t) ts))"

text \<open>The final \<^verbatim>\<open>ORDER BY\<close> is a stable sort of the rows in the order of the
  \<^verbatim>\<open>UNION ALL\<close>; SQL leaves the order of rows with equal keys open.\<close>

definition get_client_statement ::
  "uuid option \<Rightarrow> invoice list \<Rightarrow> uuid \<Rightarrow> date \<Rightarrow> date \<Rightarrow> statement_row list" where
  "get_client_statement uid tbl p_client_id p_start_date p_end_date =
     (let ts = transactions uid tbl p_client_id p_start_date p_end_date
      in map (\<lambda>t. \<lparr>t_date = t_date t, t_description = t_description t,
                    t_reference = t_reference t, t_type = t_type t, t_debit = t_debit t,
                    t_credit = t_credit t, running_balance = window_sum ts t\<rparr>)
           (sort_key order_key ts))"

text \<open>The running balance as the specification words it: the cumulative sum of
  \<open>debit - credit\<close> over the rows so far, from left to right.\<close>

fun spec_running :: "numeric \<Rightarrow> (numeric \<times> numeric) list \<Rightarrow> numeric list" where
  "spec_running acc [] = []"
| "spec_running acc ((debit, credit) # rows) =
     (acc + (debit - credit)) # spec_running (acc + (debit - credit)) rows"






section \<open>Recurring invoices\<close>

text \<open>The interval of a frequency, as both CASE expressions of
  \<^verbatim>\<open>generate_recurring_invoices\<close> spell it.\<close>

fun period :: "frequency \<Rightarrow> interval" where
  "period Weekly = Interval 0 7"
| "period Monthly = Interval 1 0"
| "period Quarterly = Interval 3 0"
| "period Yearly = Interval 12 0"

text \<open>
  The WHERE clause of the loop's query. \<^verbatim>\<open>CURRENT_DATE\<close> is compared with a
  \<^verbatim>\<open>timestamptz\<close> as the midnight that starts the day.
\<close>

definition due_for_generation :: "date \<Rightarrow> recurring_invoice \<Rightarrow> bool" where
  "due_for_generation current_date r =
     (r_status r = Active
      \<and> (case r_last_generated r of None \<Rightarrow> True
          | Some lg \<Rightarrow> timestamp_pl_interval lg (period (r_frequency r)) \<le> (current_date, 0))
      \<and> (case r_end_date r of None \<Rightarrow> True | Some e \<Rightarrow> current_date \<le> e))"

text \<open>\<^verbatim>\<open>next_date := COALESCE(rec.last_generated::date, rec.start_date) + CASE ... END\<close>,
  stored in a variable of type \<^verbatim>\<open>date\<close>.\<close>

definition next_date :: "recurring_invoice \<Rightarrow> date" where
  "next_date rec =
     date_pl_interval (coalesce (map_option fst (r_last_generated rec)) (r_start_date rec))
       (period (r_frequency rec))"

text \<open>\<^verbatim>\<open>gen_random_uuid()\<close>, the default of the \<^verbatim>\<open>id\<close> columns, is an
  identifier that no row of the table has.\<close>

definition fresh_id :: "uuid list \<Rightarrow> uuid" where
  "fresh_id ids = Suc (fold max ids 0)"

text \<open>\<^verbatim>\<open>INSERT INTO invoices\<close>: the primary key and the UNIQUE constraint on
  \<^verbatim>\<open>number\<close> are checked. (The table has no trigger.)\<close>

definition insert_invoice :: "invoice \<Rightarrow> db \<Rightarrow> sql_error + db" where
  "insert_invoice i s =
     (if i_id i \<in> set (map i_id (invoices s)) \<or> i_number i \<in> set (map i_number (invoices s))
      then Inl Unique_violation
      else Inr (s\<lparr>invoices := invoices s @ [i]\<rparr>))"

text \<open>
  The rows of the two INSERT statements of the loop's body, for the row \<open>rec\<close> of the
  query: the invoice (its totals at their default 0) and its single line item.
\<close>

definition invoice_values :: "timestamp \<Rightarrow> recurring_invoice \<Rightarrow> uuid \<Rightarrow> string \<Rightarrow> uuid \<Rightarrow> invoice" where
  "invoice_values now rec invoice_id number client =
     \<lparr>i_id = invoice_id, i_number = number, i_client_id = client,
      i_date = next_date rec, i_due_date = add_days 30 (next_date rec),
      i_subtotal = 0, i_tax_rate = r_tax_rate rec, i_tax_amount = 0,
      i_total = 0, i_status = Draft, i_currency_code = r_currency_code rec,
      i_user_id = r_user_id rec, i_updated_at = Some now\<rparr>"

definition invoice_item_values :: "recurring_invoice \<Rightarrow> uuid \<Rightarrow> uuid \<Rightarrow> invoice_item" where
  "invoice_item_values rec item_id invoice_id =
     \<lparr>ii_id = item_id, ii_invoice_id = Some invoice_id, ii_description = r_description rec,
      ii_quantity = 1, ii_rate = r_amount rec, ii_amount = r_amount rec\<rparr>"

text \<open>\<^verbatim>\<open>UPDATE recurring_invoices SET last_generated = CURRENT_TIMESTAMP,
  updated_at = CURRENT_TIMESTAMP WHERE id = rec.id\<close> on one row.\<close>

definition mark_generated :: "timestamp \<Rightarrow> uuid \<Rightarrow> recurring_invoice \<Rightarrow> recurring_invoice" where
  "mark_generated now k r =
     (if r_id r = k then r\<lparr>r_last_generated := Some now, r_updated_at := Some now\<rparr> else r)"

text \<open>
  The body of the loop for the row \<open>rec\<close>: the invoice gets its number from
  \<^verbatim>\<open>generate_invoice_number()\<close> (a NULL \<^verbatim>\<open>client_id\<close> violates NOT NULL), the
  insert of the line item fires \<^verbatim>\<open>update_invoice_totals\<close>, and
  \<^verbatim>\<open>last_generated\<close> is updated. \<open>now\<close> is \<^verbatim>\<open>CURRENT_TIMESTAMP\<close>.
\<close>

definition generate_one :: "date \<Rightarrow> timestamp \<Rightarrow> recurring_invoice \<Rightarrow> db \<Rightarrow> sql_error + db" where
  "generate_one current_date now rec s =
     (case generate_invoice_number current_date (invoices s) of
        Inl e \<Rightarrow> Inl e
      | Inr number \<Rightarrow>
          (case r_client_id rec of
             None \<Rightarrow> Inl Not_null_violation
           | Some client \<Rightarrow>
               (let invoice_id = fresh_id (map i_id (invoices s)) in
                case insert_invoice (invoice_values now rec invoice_id number client) s of
                  Inl e \<Rightarrow> Inl e
                | Inr s1 \<Rightarrow>
                    (case insert_invoice_item now
                            (invoice_item_values rec (fresh_id (map ii_id (invoice_items s1))) invoice_id)
                            s1 of
                       Inl e \<Rightarrow> Inl e
                     | Inr s2 \<Rightarrow>
                         Inr (s2\<lparr>recurring_invoices :=
                                map (mark_generated now (r_id rec)) (recurring_invoices s2)\<rparr>)))))"

text \<open>The FOR loop over the rows the query returned when the loop started.\<close>

fun generate_loop :: "date \<Rightarrow> timestamp \<Rightarrow> recurring_invoice list \<Rightarrow> db \<Rightarrow> sql_error + db" where
  "generate_loop current_date now [] s = Inr s"
| "generate_loop current_date now (rec # recs) s =
     (case generate_one current_date now rec s of
        Inl e \<Rightarrow> Inl e
      | Inr s' \<Rightarrow> generate_loop current_date now recs s')"

definition generate_recurring_invoices :: "date \<Rightarrow> timestamp \<Rightarrow> db \<Rightarrow> sql_error + db" where
  "generate_recurring_invoices current_date now s =
     generate_loop current_date now
       (filter (due_for_generation current_date) (recurring_invoices s)) s"


section \<open>Example data\<close>

definition ts_0 :: timestamp where
  "ts_0 = ((2025, 6, 2), 0)"

text \<open>An invoice of client 7 with one line item of 100 and 15 percent tax, its totals as
  the trigger stored them when the item was inserted.\<close>

definition invoice_1 :: invoice where
  "invoice_1 = \<lparr>i_id = 1, i_number = ''INV-2025-999'', i_client_id = 7, i_date = (2025, 3, 1),
     i_due_date = (2025, 3, 31), i_subtotal = 100, i_tax_rate = 15, i_tax_amount = 15,
     i_total = 115, i_status = Sent, i_currency_code = ''ZAR'', i_user_id = Some 3,
     i_updated_at = None\<rparr>"

definition item_10 :: invoice_item where
  "item_10 = \<lparr>ii_id = 10, ii_invoice_id = Some 1, ii_description = ''Tuition'',
     ii_quantity = 1, ii_rate = 100, ii_amount = 100\<rparr>"

definition db_1 :: db where
  "db_1 = \<lparr>invoices = [invoice_1], invoice_items = [item_10], credit_notes = [],
     credit_note_items = [], recurring_invoices = []\<rparr>"

text \<open>A new invoice and a new credit note, 15 percent tax, each with one line item of
  0.10 that has just been inserted (the triggers have not fired yet).\<close>

definition invoice_2 :: invoice where
  "invoice_2 = \<lparr>i_id = 2, i_number = ''INV-2025-002'', i_client_id = 7, i_date = (2025, 3, 2),
     i_due_date = (2025, 4, 1), i_subtotal = 0, i_tax_rate = 15, i_tax_amount = 0,
     i_total = 0, i_status = Draft, i_currency_code = ''ZAR'', i_user_id = Some 3,
     i_updated_at = None\<rparr>"






text \<open>Invoices of client 7 owned by user 3, for the statement: two invoices of the same
  day; the example of the specification (a paid invoice of 100, then an invoice of 50 on
  a later day); one draft invoice.\<close>

definition mk_invoice :: "uuid \<Rightarrow> string \<Rightarrow> date \<Rightarrow> numeric \<Rightarrow> invoice_status \<Rightarrow> invoice" where
  "mk_invoice k number d amount status =
     \<lparr>i_id = k, i_number = number, i_client_id = 7, i_date = d, i_due_date = add_days 30 d,
      i_subtotal = amount, i_tax_rate = 0, i_tax_amount = 0, i_total = amount, i_status = status,
      i_currency_code = ''ZAR'', i_user_id = Some 3, i_updated_at = None\<rparr>"

definition same_day_invoices :: "invoice list" where
  "same_day_invoices =
     [mk_invoice 3 ''INV-2025-003'' (2025, 3, 1) 100 Sent,
      mk_invoice 4 ''INV-2025-004'' (2025, 3, 1) 50 Sent]"

definition spec_example_invoices :: "invoice list" where
  "spec_example_invoices =
     [mk_invoice 5 ''INV-2025-005'' (2025, 3, 1) 100 Paid,
      mk_invoice 6 ''INV-2025-006'' (2025, 3, 2) 50 Sent]"




text \<open>What the two UPDATE statements of a totals trigger make of a row, for the sum
  \<open>S\<close> of the line amounts.\<close>

definition recompute_invoice :: "timestamp \<Rightarrow> numeric \<Rightarrow> invoice \<Rightarrow> invoice" where
  "recompute_invoice now S i =
     i\<lparr>i_subtotal := S, i_updated_at := Some now,
       i_tax_amount := S * (i_tax_rate i / 100), i_total := S + S * (i_tax_rate i / 100)\<rparr>"



text \<open>
  Recurring templates of client 7, read on 2025-06-02: one whose end date has passed, a
  monthly one never generated (start 2025-01-31), a monthly one last generated on
  2025-04-15 at 01:00, and a weekly one last generated on 2025-05-28.
\<close>

definition mk_recurring ::
  "uuid \<Rightarrow> frequency \<Rightarrow> date \<Rightarrow> date option \<Rightarrow> numeric \<Rightarrow> timestamp option \<Rightarrow> recurring_invoice" where
  "mk_recurring k f start_date end_date amount last_generated =
     \<lparr>r_id = k, r_client_id = Some 7, r_user_id = Some 3, r_frequency = f,
      r_start_date = start_date, r_end_date = end_date, r_description = ''School fees'',
      r_amount = amount, r_tax_rate = 15, r_currency_code = ''ZAR'', r_status = Active,
      r_last_generated = last_generated, r_updated_at = None\<rparr>"

definition rec_expired :: recurring_invoice where
  "rec_expired = mk_recurring 1 Monthly (2025, 1, 1) (Some (2025, 5, 31)) 500 None"

definition rec_monthly :: recurring_invoice where
  "rec_monthly = mk_recurring 2 Monthly (2025, 1, 31) None 200 None"

definition rec_late :: recurring_invoice where
  "rec_late = mk_recurring 3 Monthly (2025, 1, 15) None 100 (Some ((2025, 4, 15), 3600))"

definition rec_weekly :: recurring_invoice where
  "rec_weekly = mk_recurring 4 Weekly (2025, 1, 1) None 50 (Some ((2025, 5, 28), 0))"

definition db_3 :: db where
  "db_3 = \<lparr>invoices = [], invoice_items = [], credit_notes = [], credit_note_items = [],
     recurring_invoices = [rec_expired, rec_monthly, rec_late, rec_weekly]\<rparr>"

definition db_4 :: db where
  "db_4 = \<lparr>invoices = [], invoice_items = [], credit_notes = [], credit_note_items = [],
     recurring_invoices = [rec_expired]\<rparr>"

text \<open>The database that \<^verbatim>\<open>generate_recurring_invoices()\<close> leaves from \<open>db_3\<close> at
  midnight of 2025-06-02: after the first pass of the loop, and at the end.\<close>

definition db_3_mid :: db where
  "db_3_mid =
     \<lparr>invoices = [recompute_invoice ts_0 200 (invoice_values ts_0 rec_monthly 1 ''INV-2025-001'' 7)],
      invoice_items = [invoice_item_values rec_monthly 1 1],
      credit_notes = [], credit_note_items = [],
      recurring_invoices =
        [rec_expired, mark_generated ts_0 2 rec_monthly, rec_late, rec_weekly]\<rparr>"

definition db_3_after :: db where
  "db_3_after =
     \<lparr>invoices = [recompute_invoice ts_0 200 (invoice_values ts_0 rec_monthly 1 ''INV-2025-001'' 7),
                  recompute_invoice ts_0 100 (invoice_values ts_0 rec_late 2 ''INV-2025-002'' 7)],
      invoice_items = [invoice_item_values rec_monthly 1 1, invoice_item_values rec_late 2 2],
      credit_notes = [], credit_note_items = [],
      recurring_invoices =
        [rec_expired, mark_generated ts_0 2 rec_monthly, mark_generated ts_0 3 rec_late, rec_weekly]\<rparr>"


section \<open>Properties of the weighted average\<close>

lemma sum_list_nonneg_eq_0:
  fixes xs :: "numeric list"
  assumes "list_all (\<lambda>x. 0 \<le> x) xs"
  shows "sum_list xs = 0 \<longleftrightarrow> list_all (\<lambda>x. x = 0) xs"
  using assms
proof (induction xs)
  case Nil
  then show ?case by simp
next
  case (Cons x xs)
  then have nn: "0 \<le> x" "0 \<le> sum_list xs"
    by (auto simp: list_all_iff intro: sum_list_nonneg)
  then have "x + sum_list xs = 0 \<longleftrightarrow> x = 0 \<and> sum_list xs = 0"
    by (simp add: add_nonneg_eq_0_iff)
  with Cons show ?case by simp
qed

lemma calculate_subject_average_cases:
  "calculate_subject_average tbl s j t y =
     (let rows = matching_assessments tbl s j t y in
      if rows = [] then Inr 0
      else if sum_list (map a_weight rows) = 0 then Inl Division_by_zero
      else Inr (sum_list (map (\<lambda>a. a_score a * a_weight a) rows) / sum_list (map a_weight rows)))"
  by (simp add: calculate_subject_average_def Let_def sql_div_def sql_sum_def coalesce_def)




text \<open>
  C10: when the matching assessments are not empty and every one of them has weight 0
  (the CHECK constraint allows it), \<^verbatim>\<open>calculate_subject_average\<close> raises
  \<^verbatim>\<open>division by zero\<close>; on rows that satisfy the CHECK constraints it returns a
  number exactly when no assessment matches or the matching weights sum to more than 0.
\<close>

theorem calculate_subject_average_total_iff:
  assumes "list_all assessment_checks tbl"
    and "rows = matching_assessments tbl s j t y"
  shows "(rows \<noteq> [] \<and> list_all (\<lambda>a. a_weight a = 0) rows
            \<longrightarrow> calculate_subject_average tbl s j t y = Inl Division_by_zero)
       \<and> ((\<exists>v. calculate_subject_average tbl s j t y = Inr v)
            \<longleftrightarrow> (rows = [] \<or> 0 < sum_list (map a_weight rows)))"
proof -
  have "list_all assessment_checks rows"
    using assms by (simp add: matching_assessments_def list_all_iff)
  then have nn: "list_all (\<lambda>x. 0 \<le> x) (map a_weight rows)"
    by (simp add: list_all_iff assessment_checks_def)
  have z: "sum_list (map a_weight rows) = 0 \<longleftrightarrow> list_all (\<lambda>a. a_weight a = 0) rows"
    using sum_list_nonneg_eq_0 [OF nn] by (simp add: list_all_iff)
  have "0 \<le> sum_list (map a_weight rows)"
    using nn by (intro sum_list_nonneg) (auto simp: list_all_iff)
  then have p: "0 < sum_list (map a_weight rows) \<longleftrightarrow> sum_list (map a_weight rows) \<noteq> 0"
    by auto
  show ?thesis
    using z p assms(2) by (auto simp: calculate_subject_average_cases Let_def)
qed

theorem calculate_subject_average_total_iff_witness:
  "list_all assessment_checks [assessment_80_0, assessment_80_0]
   \<and> matching_assessments [assessment_80_0, assessment_80_0] 1 1 1 2025
        = [assessment_80_0, assessment_80_0]
   \<and> list_all (\<lambda>a. a_weight a = 0) [assessment_80_0, assessment_80_0]
   \<and> calculate_subject_average [assessment_80_0, assessment_80_0] 1 1 1 2025
        = Inl Division_by_zero"
proof -
  let ?tbl = "[assessment_80_0, assessment_80_0]"
  have c: "list_all assessment_checks ?tbl"
    by (simp add: assessment_checks_def assessment_80_0_def)
  have m: "matching_assessments ?tbl 1 1 1 2025 = ?tbl"
    by (simp add: matching_assessments_def sql_eq_def assessment_80_0_def)
  have z: "list_all (\<lambda>a. a_weight a = 0) ?tbl"
    by (simp add: assessment_80_0_def)
  from calculate_subject_average_total_iff [OF c m [symmetric]] z
  have "calculate_subject_average ?tbl 1 1 1 2025 = Inl Division_by_zero" by simp
  then show ?thesis using c m z by simp
qed


section \<open>Properties of the totals triggers\<close>

lemma coalesce_sql_sum: "coalesce (sql_sum xs) 0 = sum_list xs"
  by (simp add: coalesce_def sql_sum_def)

lemma sql_eq_Some: "sql_eq x (Some b) = (x = Some b)"
  by (cases x) (simp_all add: sql_eq_def)

lemma sql_eq_None: "sql_eq x None = False"
  by (cases x) (simp_all add: sql_eq_def)

lemma update_invoice_totals_Some:
  assumes "ii_invoice_id it = Some k"
  shows "update_invoice_totals (Some it) now s =
     s\<lparr>invoices := map (\<lambda>i. if i_id i = k
        then recompute_invoice now (sum_list (invoice_line_amounts s k)) i else i) (invoices s)\<rparr>"
proof -
  have c: "(\<lambda>i. if i_id i = k then i\<lparr>i_tax_amount := i_subtotal i * (i_tax_rate i / 100),
                        i_total := i_subtotal i + i_subtotal i * (i_tax_rate i / 100)\<rparr> else i)
         \<circ> (\<lambda>i. if i_id i = k then i\<lparr>i_subtotal := S, i_updated_at := Some now\<rparr> else i)
     = (\<lambda>i. if i_id i = k then recompute_invoice now S i else i)" for S
    by (rule ext) (simp add: recompute_invoice_def)
  show ?thesis using assms
    by (simp add: update_invoice_totals_def Let_def sql_eq_Some coalesce_sql_sum
      invoice_line_amounts_def c)
qed

lemma update_invoice_totals_None: "update_invoice_totals None now s = s"
  by (simp add: update_invoice_totals_def Let_def sql_eq_None map_idI)


lemma update_credit_note_totals_None: "update_credit_note_totals None now s = s"
  by (simp add: update_credit_note_totals_def Let_def sql_eq_None map_idI)

text \<open>A trigger fired for an inserted or updated line item leaves the invoice of the
  item with the totals of the data model's invariant.\<close>

lemma trigger_invoice_totals_ok:
  assumes "i' \<in> set (invoices (update_invoice_totals (Some it) now s))"
    and "ii_invoice_id it = Some (i_id i')"
  shows "invoice_totals_ok (update_invoice_totals (Some it) now s) i'"
proof -
  define k where "k = i_id i'"
  define S where "S = sum_list (invoice_line_amounts s k)"
  have k: "ii_invoice_id it = Some k"
    using assms(2) by (simp add: k_def)
  have u: "update_invoice_totals (Some it) now s =
      s\<lparr>invoices := map (\<lambda>i. if i_id i = k then recompute_invoice now S i else i) (invoices s)\<rparr>"
    unfolding S_def by (rule update_invoice_totals_Some [OF k])
  from assms(1) obtain i where i: "i \<in> set (invoices s)"
      and e: "i' = (if i_id i = k then recompute_invoice now S i else i)"
    by (auto simp: u)
  have "i_id i = k"
    using e k_def by (cases "i_id i = k") simp_all
  then have "i' = recompute_invoice now S i"
    using e by simp
  then have "i_subtotal i' = S" "i_tax_amount i' = S * (i_tax_rate i' / 100)"
    "i_total i' = S + S * (i_tax_rate i' / 100)"
    by (simp_all add: recompute_invoice_def)
  moreover have "sum_list (invoice_line_amounts (update_invoice_totals (Some it) now s) (i_id i')) = S"
    by (simp add: u invoice_line_amounts_def S_def k_def)
  ultimately show ?thesis
    by (simp add: invoice_totals_ok_def)
qed


text \<open>An INSERT and an UPDATE of a line item leave the invoice of the item with the
  totals of the invariant (the ids of the line items are distinct: \<open>id\<close> is the primary
  key).\<close>

lemma insert_invoice_item_totals_ok:
  assumes "insert_invoice_item now it s = Inr s'"
    and "i' \<in> set (invoices s')" and "ii_invoice_id it = Some (i_id i')"
  shows "invoice_totals_ok s' i'"
proof -
  have "s' = update_invoice_totals (Some it) now (s\<lparr>invoice_items := invoice_items s @ [it]\<rparr>)"
    using assms(1) by (auto simp: insert_invoice_item_def split: if_splits)
  then show ?thesis
    using assms(2,3) trigger_invoice_totals_ok by simp
qed

lemma filter_key_single:
  assumes "distinct (map f xs)" and "x \<in> set xs"
  shows "filter (\<lambda>y. f y = f x) xs = [x]"
  using assms
proof (induction xs)
  case Nil
  then show ?case by simp
next
  case (Cons y ys)
  show ?case
  proof (cases "y = x")
    case True
    then have "f x \<notin> f ` set ys"
      using Cons.prems(1) by simp
    then have "\<forall>z \<in> set ys. f z \<noteq> f x"
      by (metis imageI)
    then have "filter (\<lambda>y. f y = f x) ys = []"
      by (simp add: filter_empty_conv)
    then show ?thesis using True by simp
  next
    case False
    then have "x \<in> set ys" "f y \<noteq> f x"
      using Cons.prems by auto
    then show ?thesis using Cons by simp
  qed
qed

lemma update_invoice_item_totals_ok:
  assumes "distinct (map ii_id (invoice_items s))"
    and "it \<in> set (invoice_items s)" and "ii_invoice_id it = Some (i_id i')"
    and "i' \<in> set (invoices (update_invoice_item now (ii_id it) description quantity rate amount s))"
  shows "invoice_totals_ok (update_invoice_item now (ii_id it) description quantity rate amount s) i'"
proof -
  define row where "row = it\<lparr>ii_description := description, ii_quantity := quantity,
      ii_rate := rate, ii_amount := amount\<rparr>"
  define s1 where "s1 = s\<lparr>invoice_items := map (\<lambda>x. if ii_id x = ii_id it
      then x\<lparr>ii_description := description, ii_quantity := quantity,
             ii_rate := rate, ii_amount := amount\<rparr> else x) (invoice_items s)\<rparr>"
  have "filter (\<lambda>x. ii_id x = ii_id it) (invoice_items s) = [it]"
    by (rule filter_key_single [OF assms(1,2)])
  then have u: "update_invoice_item now (ii_id it) description quantity rate amount s
      = update_invoice_totals (Some row) now s1"
    by (simp add: update_invoice_item_def Let_def row_def s1_def)
  have "ii_invoice_id row = Some (i_id i')"
    using assms(3) by (simp add: row_def)
  then show ?thesis
    using assms(4) trigger_invoice_totals_ok unfolding u by simp
qed

text \<open>A DELETE fires the triggers with \<^verbatim>\<open>NEW\<close> NULL: no invoice and no credit note
  is recomputed.\<close>

lemma delete_invoice_item_invoices:
  "delete_invoice_item now k s = s\<lparr>invoice_items := filter (\<lambda>it. ii_id it \<noteq> k) (invoice_items s)\<rparr>"
proof -
  have "fold (\<lambda>row. update_invoice_totals None now) rows t = t" for rows :: "invoice_item list" and t
    by (induction rows) (simp_all add: update_invoice_totals_None)
  then show ?thesis by (simp add: delete_invoice_item_def Let_def)
qed

lemma delete_credit_note_item_credit_notes:
  "delete_credit_note_item now k s =
     s\<lparr>credit_note_items := filter (\<lambda>it. cni_id it \<noteq> k) (credit_note_items s)\<rparr>"
proof -
  have "fold (\<lambda>row. update_credit_note_totals None now) rows t = t"
    for rows :: "credit_note_item list" and t
    by (induction rows) (simp_all add: update_credit_note_totals_None)
  then show ?thesis by (simp add: delete_credit_note_item_def Let_def)
qed

text \<open>
  C1 (the code breaks it): the invoice of \<open>db_1\<close> has the totals of its one line item
  (100, 15, 115). After \<^verbatim>\<open>DELETE FROM invoice_items WHERE id = 10\<close> the invoice has no
  line item and the row still stores 100, 15 and 115: the trigger fired, with
  \<^verbatim>\<open>NEW.invoice_id\<close> NULL, and recomputed nothing.
\<close>

theorem delete_invoice_item_stale_totals:
  "invoice_totals_ok db_1 invoice_1
   \<and> invoice_items (delete_invoice_item ts_0 10 db_1) = []
   \<and> invoices (delete_invoice_item ts_0 10 db_1) = [invoice_1]
   \<and> i_subtotal invoice_1 = 100 \<and> i_tax_amount invoice_1 = 15 \<and> i_total invoice_1 = 115
   \<and> sum_list (invoice_line_amounts (delete_invoice_item ts_0 10 db_1) (i_id invoice_1)) = 0
   \<and> \<not> invoice_totals_ok (delete_invoice_item ts_0 10 db_1) invoice_1"
  by (simp add: delete_invoice_item_invoices invoice_totals_ok_def invoice_line_amounts_def
      db_1_def invoice_1_def item_10_def)





section \<open>Properties of the sequence numbers\<close>

lemma text_of_nat_examples:
  "text_of_nat 2025 = ''2025''" "text_of_nat 1000 = ''1000''" "text_of_nat 10000 = ''10000''"
  by (simp_all add: text_of_nat.simps digit_char_def)


text \<open>Below 999 the generators do return the next number, padded: the first number of
  a year, and the number after \<open>INV-2025-041\<close> (numbers of other years are not
  counted).\<close>

lemma generate_invoice_number_examples:
  "generate_invoice_number (2025, 6, 1) [] = Inr ''INV-2025-001''"
  "generate_invoice_number (2025, 6, 1)
     [invoice_1\<lparr>i_number := ''INV-2025-041''\<rparr>, invoice_2\<lparr>i_number := ''INV-2024-077''\<rparr>]
     = Inr ''INV-2025-042''"
  by (simp_all add: generate_invoice_number_def invoice_1_def invoice_2_def
      to_char_YYYY_def text_of_nat_examples text_of_nat.simps digit_char_def like_prefix_def
      match_here_def is_digit_def cast_integer_def nat_of_digits_def digit_val_def
      format_next_def coalesce_def lpad_def numeral_2_eq_2)


section \<open>Properties of the client statement\<close>

lemmas statement_eval =
  get_client_statement_def transactions_def statement_where_def sql_eq_def
  invoice_transaction_def payment_transaction_def order_key_def window_sum_def
  mk_invoice_def Let_def

text \<open>The rows come ordered by date, invoices before payments on the same date.\<close>

lemma get_client_statement_sorted:
  "sorted (map (\<lambda>r. (t_date r, if t_type r = ''invoice'' then 0 else 1 :: nat))
     (get_client_statement uid tbl cid d1 d2))"
proof -
  have "map (\<lambda>r. (t_date r, if t_type r = ''invoice'' then 0 else 1 :: nat))
          (get_client_statement uid tbl cid d1 d2)
      = map order_key (sort_key order_key (transactions uid tbl cid d1 d2))"
    by (simp add: get_client_statement_def Let_def order_key_def comp_def)
  then show ?thesis by simp
qed

text \<open>The example of the specification: the balances are 100, 0 and 50.\<close>

lemma get_client_statement_spec_example:
  "map (\<lambda>r. (t_date r, t_type r, t_debit r, t_credit r, running_balance r))
     (get_client_statement (Some 3) spec_example_invoices 7 (2025, 1, 1) (2025, 12, 31))
   = [((2025, 3, 1), ''invoice'', 100, 0, 100),
      ((2025, 3, 1), ''payment'', 0, 100, 0),
      ((2025, 3, 2), ''invoice'', 50, 0, 50)]"
  by (simp add: statement_eval spec_example_invoices_def)

text \<open>When no two rows share date and type, the window sums are the cumulative sums of
  the rows so far.\<close>

lemma window_prefix:
  assumes "sorted (map order_key (pre @ xs))" and "distinct (map order_key (pre @ xs))"
  shows "map (\<lambda>x. sum_list (map (\<lambda>u. t_debit u - t_credit u)
                   (filter (\<lambda>u. order_key u \<le> order_key x) (pre @ xs)))) xs
     = spec_running (sum_list (map (\<lambda>u. t_debit u - t_credit u) pre))
         (map (\<lambda>t. (t_debit t, t_credit t)) xs)"
  using assms
proof (induction xs arbitrary: pre)
  case Nil
  then show ?case by simp
next
  case (Cons x xs)
  have before: "\<forall>u \<in> set pre. order_key u \<le> order_key x"
    using Cons.prems(1) by (auto simp: sorted_append)
  have "\<forall>u \<in> set xs. order_key x \<le> order_key u"
    using Cons.prems(1) by (auto simp: sorted_append)
  moreover have "order_key x \<notin> order_key ` set xs"
    using Cons.prems(2) by simp
  then have "\<forall>u \<in> set xs. order_key u \<noteq> order_key x"
    by (metis imageI)
  ultimately have after: "\<forall>u \<in> set xs. \<not> order_key u \<le> order_key x"
    by (metis order_antisym)
  have f: "filter (\<lambda>u. order_key u \<le> order_key x) (pre @ x # xs) = pre @ [x]"
    using before after by (simp add: filter_id_conv filter_empty_conv)
  have "sorted (map order_key ((pre @ [x]) @ xs))" "distinct (map order_key ((pre @ [x]) @ xs))"
    using Cons.prems by simp_all
  from Cons.IH [OF this]
  have ih: "map (\<lambda>y. sum_list (map (\<lambda>u. t_debit u - t_credit u)
                   (filter (\<lambda>u. order_key u \<le> order_key y) (pre @ x # xs)))) xs
     = spec_running (sum_list (map (\<lambda>u. t_debit u - t_credit u) pre) + (t_debit x - t_credit x))
         (map (\<lambda>t. (t_debit t, t_credit t)) xs)"
    by simp
  have h: "sum_list (map (\<lambda>u. t_debit u - t_credit u)
              (filter (\<lambda>u. order_key u \<le> order_key x) (pre @ x # xs)))
     = sum_list (map (\<lambda>u. t_debit u - t_credit u) pre) + (t_debit x - t_credit x)"
    unfolding f by simp
  show ?case
    unfolding list.map spec_running.simps ih h by (rule refl)
qed

lemma get_client_statement_running_distinct:
  assumes "distinct (map order_key (transactions uid tbl cid d1 d2))"
  shows "map running_balance (get_client_statement uid tbl cid d1 d2)
     = spec_running 0 (map (\<lambda>r. (t_debit r, t_credit r)) (get_client_statement uid tbl cid d1 d2))"
proof -
  let ?ts = "transactions uid tbl cid d1 d2"
  let ?srt = "sort_key order_key ?ts"
  let ?g = "\<lambda>u. t_debit u - t_credit u"
  have w: "window_sum ?ts t = sum_list (map ?g (filter (\<lambda>u. order_key u \<le> order_key t) ?srt))" for t
  proof -
    have "mset (map ?g (filter (\<lambda>u. order_key u \<le> order_key t) ?ts))
        = mset (map ?g (filter (\<lambda>u. order_key u \<le> order_key t) ?srt))"
      by simp
    then have "sum_mset (mset (map ?g (filter (\<lambda>u. order_key u \<le> order_key t) ?ts)))
        = sum_mset (mset (map ?g (filter (\<lambda>u. order_key u \<le> order_key t) ?srt)))"
      by (rule arg_cong)
    then show ?thesis
      unfolding window_sum_def by (simp only: sum_mset_sum_list)
  qed
  have "mset (map order_key ?srt) = mset (map order_key ?ts)"
    by simp
  then have d: "distinct (map order_key ([] @ ?srt))"
    using assms by (metis append_Nil mset_eq_imp_distinct_iff)
  have s: "sorted (map order_key ([] @ ?srt))"
    by simp
  have p: "map (\<lambda>x. sum_list (map ?g (filter (\<lambda>u. order_key u \<le> order_key x) ?srt))) ?srt
      = spec_running 0 (map (\<lambda>t. (t_debit t, t_credit t)) ?srt)"
    using window_prefix [OF s d] by simp
  have "map running_balance (get_client_statement uid tbl cid d1 d2)
      = map (\<lambda>x. sum_list (map ?g (filter (\<lambda>u. order_key u \<le> order_key x) ?srt))) ?srt"
    by (simp add: get_client_statement_def Let_def comp_def w)
  also have "\<dots> = spec_running 0 (map (\<lambda>t. (t_debit t, t_credit t)) ?srt)"
    by (rule p)
  also have "\<dots> = spec_running 0
      (map (\<lambda>r. (t_debit r, t_credit r)) (get_client_statement uid tbl cid d1 d2))"
    by (simp add: get_client_statement_def Let_def comp_def)
  finally show ?thesis .
qed

text \<open>
  C2 (the code breaks it): two invoices of the same day, of 100 and of 50, are peers in
  the window's order, and the window sum of each covers both: the running balances are
  150 and 150, where the cumulative sum of \<open>debit - credit\<close> over the rows so far is
  100 and then 150.
\<close>

theorem get_client_statement_peers:
  "map (\<lambda>r. (t_date r, t_type r, t_debit r, t_credit r))
     (get_client_statement (Some 3) same_day_invoices 7 (2025, 1, 1) (2025, 12, 31))
     = [((2025, 3, 1), ''invoice'', 100, 0), ((2025, 3, 1), ''invoice'', 50, 0)]
   \<and> map running_balance
       (get_client_statement (Some 3) same_day_invoices 7 (2025, 1, 1) (2025, 12, 31))
     = [150, 150]
   \<and> spec_running 0 (map (\<lambda>r. (t_debit r, t_credit r))
       (get_client_statement (Some 3) same_day_invoices 7 (2025, 1, 1) (2025, 12, 31)))
     = [100, 150]"
  by (simp add: statement_eval same_day_invoices_def)











section \<open>Properties of the recurring invoices\<close>

lemma add_days_numeral:
  "add_days (numeral k) dt = add_days (pred_numeral k) (next_day dt)"
  by (simp add: numeral_eq_Suc)

lemmas date_eval =
  timestamp_pl_interval_def date_pl_interval_def clamp_day_def days_in_month_def
  is_leap_def add_days_numeral

lemma due_examples:
  "\<not> due_for_generation (2025, 6, 2) rec_expired"
  "due_for_generation (2025, 6, 2) rec_monthly"
  "due_for_generation (2025, 6, 2) rec_late"
  "\<not> due_for_generation (2025, 6, 2) rec_weekly"
  by (simp_all add: due_for_generation_def rec_expired_def rec_monthly_def rec_late_def
      rec_weekly_def mk_recurring_def date_eval)

lemma next_date_examples:
  "next_date rec_monthly = (2025, 2, 28)"
  "next_date rec_late = (2025, 5, 15)"
  "next_date rec_weekly = (2025, 6, 4)"
  by (simp_all add: next_date_def rec_monthly_def rec_late_def rec_weekly_def mk_recurring_def
      coalesce_def date_eval)

text \<open>The generated identifiers are new, so the primary keys never reject the rows of the
  loop; a template without client makes the run raise.\<close>

lemma fold_max_init:
  fixes a :: nat
  shows "a \<le> fold max xs a"
proof (induction xs arbitrary: a)
  case Nil
  then show ?case by simp
next
  case (Cons y ys)
  have "a \<le> max y a" by simp
  also have "max y a \<le> fold max ys (max y a)" by (rule Cons.IH)
  finally show ?case by simp
qed

lemma fold_max_member:
  fixes a :: nat
  assumes "x \<in> set xs"
  shows "x \<le> fold max xs a"
  using assms
proof (induction xs arbitrary: a)
  case Nil
  then show ?case by simp
next
  case (Cons y ys)
  show ?case
  proof (cases "x = y")
    case True
    have "y \<le> max y a" by simp
    also have "max y a \<le> fold max ys (max y a)" by (rule fold_max_init)
    finally show ?thesis using True by simp
  next
    case False
    then have "x \<in> set ys" using Cons.prems by simp
    then show ?thesis using Cons.IH by simp
  qed
qed

lemma fresh_id_new: "fresh_id ids \<notin> set ids"
proof
  assume "fresh_id ids \<in> set ids"
  then have "fresh_id ids \<le> fold max ids 0"
    by (rule fold_max_member)
  then show False by (simp add: fresh_id_def)
qed

lemma generate_one_null_client:
  assumes "r_client_id rec = None" and "generate_invoice_number today (invoices s) = Inr number"
  shows "generate_one today now rec s = Inl Not_null_violation"
  using assms by (simp add: generate_one_def)

text \<open>One pass of the loop's body that does not raise: one invoice more, dated
  \<open>next_date rec\<close>, and the rows of \<open>rec\<close>'s id marked as generated.\<close>

lemma generate_one_Inr:
  assumes "generate_one today now rec s = Inr s'"
  shows "\<exists>i. invoices s' = invoices s @ [i] \<and> i_date i = next_date rec"
    and "recurring_invoices s' = map (mark_generated now (r_id rec)) (recurring_invoices s)"
proof -
  from assms obtain number client s1 s2 where
    i1: "insert_invoice (invoice_values now rec (fresh_id (map i_id (invoices s))) number client) s
           = Inr s1"
    and i2: "insert_invoice_item now
           (invoice_item_values rec (fresh_id (map ii_id (invoice_items s1)))
              (fresh_id (map i_id (invoices s)))) s1 = Inr s2"
    and s': "s' = s2\<lparr>recurring_invoices :=
           map (mark_generated now (r_id rec)) (recurring_invoices s2)\<rparr>"
    by (auto simp: generate_one_def Let_def split: sum.splits option.splits)
  define inv where
    "inv = invoice_values now rec (fresh_id (map i_id (invoices s))) number client"
  define item where
    "item = invoice_item_values rec (fresh_id (map ii_id (invoice_items s1)))
       (fresh_id (map i_id (invoices s)))"
  have s1: "s1 = s\<lparr>invoices := invoices s @ [inv]\<rparr>"
    and new: "i_id inv \<notin> set (map i_id (invoices s))"
    using i1 unfolding inv_def [symmetric]
    by (auto simp: insert_invoice_def split: if_splits)
  have s2: "s2 = update_invoice_totals (Some item) now (s1\<lparr>invoice_items := invoice_items s1 @ [item]\<rparr>)"
    using i2 unfolding item_def [symmetric]
    by (auto simp: insert_invoice_item_def split: if_splits)
  have k: "ii_invoice_id item = Some (i_id inv)"
    by (simp add: item_def inv_def invoice_item_values_def invoice_values_def)
  define S where
    "S = sum_list (invoice_line_amounts (s1\<lparr>invoice_items := invoice_items s1 @ [item]\<rparr>) (i_id inv))"
  have old: "map (\<lambda>i. if i_id i = i_id inv then recompute_invoice now S i else i) (invoices s)
      = invoices s"
  proof (rule map_idI)
    fix x assume "x \<in> set (invoices s)"
    then have "i_id x \<in> set (map i_id (invoices s))"
      by simp
    with new have "i_id x \<noteq> i_id inv"
      by metis
    then show "(if i_id x = i_id inv then recompute_invoice now S x else x) = x"
      by simp
  qed
  have "invoices s2 = invoices s @ [recompute_invoice now S inv]"
    unfolding s2 update_invoice_totals_Some [OF k] S_def [symmetric]
    by (simp add: s1 old)
  moreover have "i_date (recompute_invoice now S inv) = next_date rec"
    by (simp add: recompute_invoice_def inv_def invoice_values_def)
  ultimately show "\<exists>i. invoices s' = invoices s @ [i] \<and> i_date i = next_date rec"
    by (simp add: s')
  have "recurring_invoices s2 = recurring_invoices s"
    unfolding s2 update_invoice_totals_Some [OF k] by (simp add: s1)
  then show "recurring_invoices s' = map (mark_generated now (r_id rec)) (recurring_invoices s)"
    by (simp add: s')
qed

lemma generate_loop_Inr:
  assumes "generate_loop today now recs s = Inr s'"
  shows "\<exists>new. invoices s' = invoices s @ new \<and> map i_date new = map next_date recs"
    and "recurring_invoices s'
      = fold (\<lambda>rec. map (mark_generated now (r_id rec))) recs (recurring_invoices s)"
  using assms
proof (induction recs arbitrary: s)
  case Nil
  {
    case 1
    then show ?case by simp
  next
    case 2
    then show ?case by simp
  }
next
  case (Cons rec recs)
  {
    case 1
    then obtain s1 where g: "generate_one today now rec s = Inr s1"
      and l: "generate_loop today now recs s1 = Inr s'"
      by (auto split: sum.splits)
    from generate_one_Inr(1) [OF g] obtain i where
      i: "invoices s1 = invoices s @ [i]" "i_date i = next_date rec"
      by blast
    from Cons.IH(1) [OF l] obtain new where
      n: "invoices s' = invoices s1 @ new" "map i_date new = map next_date recs"
      by blast
    have "invoices s' = invoices s @ (i # new) \<and> map i_date (i # new) = map next_date (rec # recs)"
      using i n by simp
    then show ?case by blast
  next
    case 2
    then obtain s1 where g: "generate_one today now rec s = Inr s1"
      and l: "generate_loop today now recs s1 = Inr s'"
      by (auto split: sum.splits)
    show ?case
      using Cons.IH(2) [OF l] generate_one_Inr(2) [OF g] by simp
  }
qed

text \<open>The rows the loop marks are the rows with the id of a row of the query.\<close>

lemma fold_mark_generated:
  "fold (\<lambda>rec. map (mark_generated now (r_id rec))) recs rs
     = map (\<lambda>r. if r_id r \<in> set (map r_id recs)
                then r\<lparr>r_last_generated := Some now, r_updated_at := Some now\<rparr> else r) rs"
proof (induction recs arbitrary: rs)
  case Nil
  then show ?case by (simp add: map_idI)
next
  case (Cons rec recs)
  have "(\<lambda>r. if r_id r \<in> set (map r_id recs)
              then r\<lparr>r_last_generated := Some now, r_updated_at := Some now\<rparr> else r)
          \<circ> mark_generated now (r_id rec)
      = (\<lambda>r. if r_id r \<in> set (map r_id (rec # recs))
              then r\<lparr>r_last_generated := Some now, r_updated_at := Some now\<rparr> else r)"
    by (rule ext) (simp add: mark_generated_def)
  then show ?case
    by (simp add: Cons.IH)
qed

lemma id_in_filter_iff:
  assumes "distinct (map r_id rs)" and "r \<in> set rs"
  shows "r_id r \<in> set (map r_id (filter P rs)) \<longleftrightarrow> P r"
proof
  assume "r_id r \<in> set (map r_id (filter P rs))"
  then obtain q where q: "q \<in> set rs" "P q" "r_id q = r_id r"
    by auto
  have "inj_on r_id (set rs)"
    using assms(1) by (simp add: distinct_map)
  then have "q = r"
    using q assms(2) by (auto dest: inj_onD)
  then show "P r" using q by simp
next
  assume "P r"
  then show "r_id r \<in> set (map r_id (filter P rs))"
    using assms(2) by auto
qed

lemma generate_recurring_invoices_Inr:
  assumes "generate_recurring_invoices today now s = Inr s'"
  shows "\<exists>new. invoices s' = invoices s @ new
           \<and> map i_date new = map next_date (filter (due_for_generation today) (recurring_invoices s))"
    and "recurring_invoices s'
      = map (\<lambda>r. if r_id r \<in> set (map r_id (filter (due_for_generation today) (recurring_invoices s)))
                 then r\<lparr>r_last_generated := Some now, r_updated_at := Some now\<rparr> else r)
          (recurring_invoices s)"
  using assms generate_loop_Inr [of today now "filter (due_for_generation today) (recurring_invoices s)" s s']
  by (simp_all add: generate_recurring_invoices_def fold_mark_generated)


text \<open>The runs of \<^verbatim>\<open>generate_recurring_invoices()\<close> on the example databases, at
  midnight of 2025-06-02.\<close>

lemma generate_recurring_invoices_db_4:
  "generate_recurring_invoices (2025, 6, 2) ts_0 db_4 = Inr db_4"
  by (simp add: generate_recurring_invoices_def db_4_def due_examples)

lemmas number_eval =
  generate_invoice_number_def to_char_YYYY_def text_of_nat_examples text_of_nat.simps
  digit_char_def like_prefix_def match_here_def is_digit_def cast_integer_def
  nat_of_digits_def digit_val_def format_next_def coalesce_def lpad_def numeral_2_eq_2

lemmas insert_eval =
  insert_invoice_def insert_invoice_item_def update_invoice_totals_def sql_eq_def
  sql_sum_def coalesce_def fresh_id_def Let_def invoice_values_def invoice_item_values_def
  recompute_invoice_def mark_generated_def next_date_examples
  rec_expired_def rec_monthly_def rec_late_def rec_weekly_def mk_recurring_def

lemma generate_recurring_invoices_db_3:
  "generate_recurring_invoices (2025, 6, 2) ts_0 db_3 = Inr db_3_after"
proof -
  have n1: "generate_invoice_number (2025, 6, 2) [] = Inr ''INV-2025-001''"
    by (simp add: number_eval)
  have n2: "generate_invoice_number (2025, 6, 2) (invoices db_3_mid) = Inr ''INV-2025-002''"
    by (simp add: db_3_mid_def number_eval recompute_invoice_def invoice_values_def)
  have g1: "generate_one (2025, 6, 2) ts_0 rec_monthly db_3 = Inr db_3_mid"
    unfolding generate_one_def db_3_def db_3_mid_def
    by (simp add: n1) (simp add: insert_eval)
  have g2: "generate_one (2025, 6, 2) ts_0 rec_late db_3_mid = Inr db_3_after"
    unfolding generate_one_def n2
    by (simp add: db_3_mid_def db_3_after_def insert_eval)
  have "filter (due_for_generation (2025, 6, 2)) (recurring_invoices db_3) = [rec_monthly, rec_late]"
    by (simp add: db_3_def due_examples)
  then show ?thesis
    by (simp add: generate_recurring_invoices_def g1 g2)
qed

text \<open>
  C6 (as stated, refuted): the template \<open>rec_expired\<close> is active and its
  \<open>last_generated\<close> is null, but its end date (2025-05-31) is before the current date:
  the run of 2025-06-02 generates no invoice and leaves the database as it was.
\<close>

theorem expired_template_not_generated_counterexample:
  "r_status rec_expired = Active \<and> r_last_generated rec_expired = None
   \<and> recurring_invoices db_4 = [rec_expired] \<and> invoices db_4 = []
   \<and> generate_recurring_invoices (2025, 6, 2) ts_0 db_4 = Inr db_4"
  by (simp add: generate_recurring_invoices_db_4)
    (simp add: db_4_def rec_expired_def mk_recurring_def)

text \<open>
  C6 (amended): in a run of \<^verbatim>\<open>generate_recurring_invoices()\<close> that does not raise, an
  invoice is generated for a template exactly when the template is active, its
  \<open>last_generated\<close> is null or \<open>last_generated + period(frequency)\<close> is not after the
  midnight that starts the current date, and its end date is null or not before the
  current date. The date of the invoice is \<open>last_generated\<close>'s date if set, otherwise
  the start date, plus the period; the existing invoices stay; and \<open>last_generated\<close>
  becomes the current timestamp for exactly these templates. (The ids of the templates are
  distinct: \<open>id\<close> is the primary key.)
\<close>

theorem generate_recurring_invoices_due:
  assumes "generate_recurring_invoices today now s = Inr s'"
    and "distinct (map r_id (recurring_invoices s))"
  shows "(\<forall>r. due_for_generation today r \<longleftrightarrow>
            r_status r = Active
            \<and> (r_last_generated r = None
                \<or> (\<exists>lg. r_last_generated r = Some lg
                      \<and> timestamp_pl_interval lg (period (r_frequency r)) \<le> (today, 0)))
            \<and> (r_end_date r = None \<or> (\<exists>e. r_end_date r = Some e \<and> today \<le> e)))
       \<and> (\<forall>r. next_date r =
            date_pl_interval (case r_last_generated r of None \<Rightarrow> r_start_date r | Some lg \<Rightarrow> fst lg)
              (period (r_frequency r)))
       \<and> (\<exists>new. invoices s' = invoices s @ new
            \<and> map i_date new = map next_date (filter (due_for_generation today) (recurring_invoices s)))
       \<and> recurring_invoices s' =
            map (\<lambda>r. if due_for_generation today r
                      then r\<lparr>r_last_generated := Some now, r_updated_at := Some now\<rparr> else r)
              (recurring_invoices s)"
proof -
  have a: "due_for_generation today r \<longleftrightarrow>
            r_status r = Active
            \<and> (r_last_generated r = None
                \<or> (\<exists>lg. r_last_generated r = Some lg
                      \<and> timestamp_pl_interval lg (period (r_frequency r)) \<le> (today, 0)))
            \<and> (r_end_date r = None \<or> (\<exists>e. r_end_date r = Some e \<and> today \<le> e))" for r
    by (cases "r_last_generated r"; cases "r_end_date r") (simp_all add: due_for_generation_def)
  have b: "next_date r =
            date_pl_interval (case r_last_generated r of None \<Rightarrow> r_start_date r | Some lg \<Rightarrow> fst lg)
              (period (r_frequency r))" for r
    by (cases "r_last_generated r") (simp_all add: next_date_def coalesce_def)
  have "map (\<lambda>r. if r_id r \<in> set (map r_id (filter (due_for_generation today) (recurring_invoices s)))
                 then r\<lparr>r_last_generated := Some now, r_updated_at := Some now\<rparr> else r)
          (recurring_invoices s)
      = map (\<lambda>r. if due_for_generation today r
                 then r\<lparr>r_last_generated := Some now, r_updated_at := Some now\<rparr> else r)
          (recurring_invoices s)"
  proof (rule map_cong [OF refl])
    fix r assume "r \<in> set (recurring_invoices s)"
    then have x: "r_id r \<in> set (map r_id (filter (due_for_generation today) (recurring_invoices s)))
        \<longleftrightarrow> due_for_generation today r"
      by (rule id_in_filter_iff [OF assms(2)])
    show "(if r_id r \<in> set (map r_id (filter (due_for_generation today) (recurring_invoices s)))
           then r\<lparr>r_last_generated := Some now, r_updated_at := Some now\<rparr> else r)
        = (if due_for_generation today r
           then r\<lparr>r_last_generated := Some now, r_updated_at := Some now\<rparr> else r)"
      unfolding x by (rule refl)
  qed
  then have d: "recurring_invoices s' =
            map (\<lambda>r. if due_for_generation today r
                      then r\<lparr>r_last_generated := Some now, r_updated_at := Some now\<rparr> else r)
              (recurring_invoices s)"
    using generate_recurring_invoices_Inr(2) [OF assms(1)] by simp
  show ?thesis
    using a b generate_recurring_invoices_Inr(1) [OF assms(1)] d by blast
qed

theorem generate_recurring_invoices_due_witness:
  "generate_recurring_invoices (2025, 6, 2) ts_0 db_3 = Inr db_3_after
   \<and> distinct (map r_id (recurring_invoices db_3))
   \<and> invoices db_3 = []
   \<and> map i_date (invoices db_3_after) = [(2025, 2, 28), (2025, 5, 15)]
   \<and> map r_last_generated (recurring_invoices db_3_after)
       = [None, Some ts_0, Some ts_0, Some ((2025, 5, 28), 0)]"
proof -
  have r: "generate_recurring_invoices (2025, 6, 2) ts_0 db_3 = Inr db_3_after"
    by (rule generate_recurring_invoices_db_3)
  have d: "distinct (map r_id (recurring_invoices db_3))"
    by (simp add: db_3_def rec_expired_def rec_monthly_def rec_late_def rec_weekly_def
        mk_recurring_def)
  have e: "invoices db_3 = []"
    by (simp add: db_3_def)
  have f: "filter (due_for_generation (2025, 6, 2)) (recurring_invoices db_3) = [rec_monthly, rec_late]"
    by (simp add: db_3_def due_examples)
  from generate_recurring_invoices_due [OF r d] obtain new where
    "invoices db_3_after = invoices db_3 @ new"
    "map i_date new = map next_date (filter (due_for_generation (2025, 6, 2)) (recurring_invoices db_3))"
    and l: "recurring_invoices db_3_after =
            map (\<lambda>r. if due_for_generation (2025, 6, 2) r
                      then r\<lparr>r_last_generated := Some ts_0, r_updated_at := Some ts_0\<rparr> else r)
              (recurring_invoices db_3)"
    by blast
  then have "map i_date (invoices db_3_after) = [(2025, 2, 28), (2025, 5, 15)]"
    by (simp add: e f next_date_examples)
  moreover have "map r_last_generated (recurring_invoices db_3_after)
       = [None, Some ts_0, Some ts_0, Some ((2025, 5, 28), 0)]"
    unfolding l
    by (simp add: db_3_def due_examples)
      (simp add: rec_expired_def rec_weekly_def mk_recurring_def)
  ultimately show ?thesis
    using r d e by simp
qed

text \<open>
  C7 (as stated, refuted): the end date of \<open>rec_expired\<close> (2025-05-31) has passed on
  2025-06-02, and after the run of that day the template is still active, not completed.
\<close>

theorem expired_template_stays_active_counterexample:
  "r_end_date rec_expired = Some (2025, 5, 31) \<and> (2025, 5, 31) < ((2025, 6, 2) :: date)
   \<and> map r_status (recurring_invoices db_4) = [Active]
   \<and> (case generate_recurring_invoices (2025, 6, 2) ts_0 db_4 of
         Inl e \<Rightarrow> [] | Inr s' \<Rightarrow> map r_status (recurring_invoices s')) = [Active]"
  by (simp add: generate_recurring_invoices_db_4)
    (simp add: db_4_def rec_expired_def mk_recurring_def)

text \<open>
  C7 (amended): \<^verbatim>\<open>generate_recurring_invoices()\<close> changes the status of no template.
  A template whose end date has passed is not selected by the query, so it gets no
  invoice, and it keeps its status.
\<close>

theorem generate_recurring_invoices_status:
  assumes "generate_recurring_invoices today now s = Inr s'"
  shows "map r_status (recurring_invoices s') = map r_status (recurring_invoices s)
       \<and> map r_id (recurring_invoices s') = map r_id (recurring_invoices s)
       \<and> (\<forall>r e. r_end_date r = Some e \<and> e < today \<longrightarrow> \<not> due_for_generation today r)"
proof -
  let ?f = "\<lambda>r. if r_id r \<in> set (map r_id (filter (due_for_generation today) (recurring_invoices s)))
                 then r\<lparr>r_last_generated := Some now, r_updated_at := Some now\<rparr> else r"
  have "r_status (?f r) = r_status r" "r_id (?f r) = r_id r" for r
    by simp_all
  then have "map r_status (map ?f rs) = map r_status rs" "map r_id (map ?f rs) = map r_id rs"
    for rs :: "recurring_invoice list"
    by (simp_all add: comp_def)
  moreover have "\<not> due_for_generation today r" if "r_end_date r = Some e" "e < today" for r e
    using that by (simp add: due_for_generation_def not_le)
  ultimately show ?thesis
    using generate_recurring_invoices_Inr(2) [OF assms] by auto
qed

theorem generate_recurring_invoices_status_witness:
  "generate_recurring_invoices (2025, 6, 2) ts_0 db_3 = Inr db_3_after
   \<and> map r_status (recurring_invoices db_3) = [Active, Active, Active, Active]
   \<and> map r_status (recurring_invoices db_3_after) = [Active, Active, Active, Active]
   \<and> r_end_date rec_expired = Some (2025, 5, 31) \<and> (2025, 5, 31) < ((2025, 6, 2) :: date)
   \<and> \<not> due_for_generation (2025, 6, 2) rec_expired"
proof -
  have r: "generate_recurring_invoices (2025, 6, 2) ts_0 db_3 = Inr db_3_after"
    by (rule generate_recurring_invoices_db_3)
  have a: "map r_status (recurring_invoices db_3) = [Active, Active, Active, Active]"
    by (simp add: db_3_def rec_expired_def rec_monthly_def rec_late_def rec_weekly_def
        mk_recurring_def)
  have e: "r_end_date rec_expired = Some (2025, 5, 31)" "(2025, 5, 31) < ((2025, 6, 2) :: date)"
    by (simp_all add: rec_expired_def mk_recurring_def)
  from generate_recurring_invoices_status [OF r] a e
  show ?thesis using r by simp
qed

end
